theory Spec2Isabelle
  imports Main "HOL-Library.Word" "HOL-Library.Signed_Division"
begin

section \<open>Data model of \<^verbatim>\<open>runner/worker.go\<close>\<close>

text \<open>
  The worker issues gRPC requests through collaborators that live outside the file:
  the template engine, the payload decoders and the invocation stub. They are
  parameters of the model (records of functions), so that every theorem holds for
  every behaviour of theirs. Everything the worker does beyond returning a value
  (calls into the stub, log records, timer waits) is written into an event list.
\<close>

type_synonym int64 = "64 word"

text \<open>\<^verbatim>\<open>*dynamic.Message\<close> is opaque to the worker.\<close>

type_synonym message = string

text \<open>
  A Go slice is either \<^verbatim>\<open>nil\<close> or a (possibly empty) sequence; the worker tests both
  \<^verbatim>\<open>== nil\<close> and \<^verbatim>\<open>len(..) == 0\<close>, so the model keeps the difference.
\<close>

type_synonym 'a slice = "'a list option"

definition len :: "'a slice \<Rightarrow> nat" where
  "len s = (case s of None \<Rightarrow> 0 | Some xs \<Rightarrow> length xs)"

text \<open>
  Error values: \<^verbatim>\<open>io.EOF\<close>, the result of \<^verbatim>\<open>fmt.Errorf\<close>, any error produced by a
  collaborator, and the combined error of \<^verbatim>\<open>go.uber.org/multierr\<close>. Go's \<^verbatim>\<open>nil\<close> error
  is \<open>None\<close> of \<open>error option\<close>.
\<close>

datatype error = EOF | Errorf string | Failure string | MultiError "error list"

text \<open>
  \<^verbatim>\<open>multierr.Append\<close> (external library): \<^verbatim>\<open>nil\<close> is neutral on both sides, two errors
  are combined into one flat multi-error that keeps both.
\<close>

fun errors_of :: "error \<Rightarrow> error list" where
  "errors_of (MultiError es) = es"
| "errors_of e = [e]"

fun multierr_Append :: "error option \<Rightarrow> error option \<Rightarrow> error option" where
  "multierr_Append None r = r"
| "multierr_Append (Some l) None = Some l"
| "multierr_Append (Some l) (Some r) = Some (MultiError (errors_of l @ errors_of r))"

type_synonym duration = int

record RunConfig =
  binary :: bool
  data :: string
  metadata :: string
  timeout :: duration
  streamInterval :: duration
  enableCompression :: bool
  hasLog :: bool

record MethodDescriptor =
  IsClientStreaming :: bool
  IsServerStreaming :: bool
  GetFullyQualifiedName :: string

text \<open>\<^verbatim>\<open>metadata.MD\<close> is a map from header name to a list of values.\<close>

type_synonym MD = "(string \<times> string list) list"

record Context =
  deadline :: "duration option"
  outgoing :: "MD option"

datatype callOption = UseCompressor string

text \<open>
  A stream handle returned by the stub. The result of the \<open>k\<close>-th call of \<^verbatim>\<open>SendMsg\<close> and
  of \<^verbatim>\<open>RecvMsg\<close> is given by the handle (\<open>k\<close> counts from 0): whatever the remote side
  and the transport do is one such handle.
\<close>

record Stream =
  SendMsg :: "nat \<Rightarrow> message \<Rightarrow> error option"
  RecvMsg :: "nat \<Rightarrow> error + message"
  CloseSend :: "error option"
  CloseAndReceive :: "error + message"

record Stub =
  InvokeRpc :: "Context \<Rightarrow> MethodDescriptor \<Rightarrow> message \<Rightarrow> callOption list \<Rightarrow> error + message"
  InvokeRpcClientStream :: "Context \<Rightarrow> MethodDescriptor \<Rightarrow> callOption list \<Rightarrow> error + Stream"
  InvokeRpcServerStream :: "Context \<Rightarrow> MethodDescriptor \<Rightarrow> message \<Rightarrow> callOption list \<Rightarrow> error + Stream"
  InvokeRpcBidiStream :: "Context \<Rightarrow> MethodDescriptor \<Rightarrow> callOption list \<Rightarrow> error + Stream"

text \<open>
  The worker. \<^verbatim>\<open>reqCounter\<close> is a pointer to a counter shared between workers; the model
  holds the value it points to and follows one worker. The \<^verbatim>\<open>done\<close> channel is an input
  of the scheduler loop below; the mutex only guards \<open>active\<close>.
\<close>

record Worker =
  stub :: Stub
  mtd :: MethodDescriptor
  config :: RunConfig
  reqCounter :: int64
  workerID :: string
  cachedMessages :: "message slice"
  arrayJSONData :: "string slice"
  active :: bool

definition isActive :: "Worker \<Rightarrow> bool" where
  "isActive w = active w"

definition setActive :: "Worker \<Rightarrow> bool \<Rightarrow> Worker" where
  "setActive w v = w\<lparr>active := v\<rparr>"

text \<open>
  Modelled from the spec: \<^verbatim>\<open>callTemplateData\<close> and \<^verbatim>\<open>newCallTemplateData\<close> are declared in
  another file of the package. The spec says the templating context is seeded with the
  request number, the worker identity and the method metadata.
\<close>

record callTemplateData =
  WorkerID :: string
  RequestNumber :: int64
  FullyQualifiedName :: string

definition newCallTemplateData :: "MethodDescriptor \<Rightarrow> string \<Rightarrow> int64 \<Rightarrow> callTemplateData" where
  "newCallTemplateData m wid reqNum =
     \<lparr>WorkerID = wid, RequestNumber = reqNum, FullyQualifiedName = GetFullyQualifiedName m\<rparr>"

text \<open>
  The template engine and the payload decoders, called by the worker and defined
  elsewhere: parameters of the model.
\<close>

record Env =
  executeData :: "callTemplateData \<Rightarrow> string \<Rightarrow> error + string"
  executeMetadata :: "callTemplateData \<Rightarrow> string \<Rightarrow> error + (string \<times> string) list"
  createPayloadsFromJSON :: "string \<Rightarrow> MethodDescriptor \<Rightarrow> error + message slice"
  createPayloadsFromBin :: "string \<Rightarrow> MethodDescriptor \<Rightarrow> error + message slice"

text \<open>What the worker does to the outside, in the order it does it.\<close>

datatype event =
    Log string "error option"
  | Tick
  | CallExecuteData string
  | CallExecuteMetadata
  | CallCreatePayloadsFromJSON
  | CallCreatePayloadsFromBin
  | CallInvokeRpc message
  | CallInvokeRpcClientStream
  | CallInvokeRpcServerStream message
  | CallInvokeRpcBidiStream
  | CallSendMsg message
  | CallRecvMsg
  | CallCloseSend
  | CallCloseAndReceive
  | GoReceiver
  | RecvDone
  | CallCond string "error option" int64 duration

text \<open>
  A log record is emitted only when \<^verbatim>\<open>hasLog\<close> is set; the model keeps its message and
  its \<^verbatim>\<open>"error"\<close> field.
\<close>

definition logw :: "Worker \<Rightarrow> string \<Rightarrow> error option \<Rightarrow> event list" where
  "logw w s err = (if hasLog (config w) then [Log s err] else [])"

text \<open>A call either returns or panics (an index out of range stops the goroutine).\<close>

datatype 'a outcome = Return 'a | Panic string

definition elems :: "'a slice \<Rightarrow> 'a list" where
  "elems s = (case s of None \<Rightarrow> [] | Some xs \<Rightarrow> xs)"

definition err_of :: "error + 'a \<Rightarrow> error option" where
  "err_of r = (case r of Inl err \<Rightarrow> Some err | Inr _ \<Rightarrow> None)"

section \<open>Payload source: \<^verbatim>\<open>getMessages\<close>\<close>

definition getMessages ::
  "Env \<Rightarrow> Worker \<Rightarrow> callTemplateData \<Rightarrow> string \<Rightarrow> (error + message slice) \<times> Worker \<times> event list" where
  "getMessages e w ctd inputData =
     (if cachedMessages w \<noteq> None then (Inr (cachedMessages w), w, [])
      else if \<not> binary (config w) then
        (case executeData e ctd inputData of
           Inl err \<Rightarrow> (Inl err, w, [CallExecuteData inputData])
         | Inr d \<Rightarrow>
             (case createPayloadsFromJSON e d (mtd w) of
                Inl err \<Rightarrow> (Inl err, w, [CallExecuteData inputData, CallCreatePayloadsFromJSON])
              | Inr inputs \<Rightarrow> (Inr inputs, w, [CallExecuteData inputData, CallCreatePayloadsFromJSON])))
      else
        (case createPayloadsFromBin e inputData (mtd w) of
           Inl err \<Rightarrow> (Inl err, w, [CallCreatePayloadsFromBin])
         | Inr inputs \<Rightarrow> (Inr inputs, w\<lparr>cachedMessages := inputs\<rparr>, [CallCreatePayloadsFromBin])))"

text \<open>A worker calling \<^verbatim>\<open>getMessages\<close> once per request, for a list of requests.\<close>

fun getMessages_calls ::
  "Env \<Rightarrow> Worker \<Rightarrow> (callTemplateData \<times> string) list \<Rightarrow> (error + message slice) list \<times> Worker \<times> event list" where
  "getMessages_calls e w [] = ([], w, [])"
| "getMessages_calls e w ((ctd, inputData) # cs) =
     (case getMessages e w ctd inputData of
        (r, w', evs) \<Rightarrow>
          (case getMessages_calls e w' cs of
             (rs, w'', evs') \<Rightarrow> (r # rs, w'', evs @ evs')))"

section \<open>Streaming protocol adapters\<close>

definition callOptions :: "Worker \<Rightarrow> callOption list" where
  "callOptions w = (if enableCompression (config w) then [UseCompressor ''gzip''] else [])"

text \<open>\<^verbatim>\<open>if w.config.streamInterval > 0 { wait = time.Tick(..); <-wait }\<close>\<close>

definition wait :: "Worker \<Rightarrow> event list" where
  "wait w = (if streamInterval (config w) > 0 then [Tick] else [])"

definition closeAndReceive :: "Worker \<Rightarrow> Stream \<Rightarrow> event list" where
  "closeAndReceive w str =
     CallCloseAndReceive # logw w ''Close and receive'' (err_of (CloseAndReceive str))"

subsection \<open>\<^verbatim>\<open>makeClientStreamingRequest\<close>\<close>

text \<open>
  The loop \<^verbatim>\<open>for err == nil { ... }\<close> of lines 245 to 301, from the values of \<open>counter\<close>
  and \<open>err\<close> at the head of an iteration.
\<close>

function makeClientStreamingRequest_loop ::
  "Worker \<Rightarrow> Stream \<Rightarrow> message slice \<Rightarrow> nat \<Rightarrow> error option \<Rightarrow> unit outcome \<times> event list" where
  "makeClientStreamingRequest_loop w str input counter err =
     (if err \<noteq> None then (Return (), [])
      else if input = None \<or> len input = 0 then (Return (), closeAndReceive w str)
      else if counter = len input then (Return (), closeAndReceive w str)
      else if \<not> counter < len input then (Panic ''index out of range'', [])
      else
        (let payload = elems input ! counter;
             err' = SendMsg str counter payload;
             evs = wait w @ [CallSendMsg payload] @ logw w ''Send message'' err'
         in if err' = Some EOF then (Return (), evs @ closeAndReceive w str)
            else (case makeClientStreamingRequest_loop w str input (counter + 1) err' of
                    (r, evs') \<Rightarrow> (r, evs @ evs'))))"
  by pat_completeness auto
termination
  by (relation "measure (\<lambda>(w, str, input, counter, err). len input - counter)") auto

declare makeClientStreamingRequest_loop.simps [simp del]

definition makeClientStreamingRequest ::
  "Worker \<Rightarrow> Context \<Rightarrow> message slice \<Rightarrow> error option outcome \<times> event list" where
  "makeClientStreamingRequest w ctx input =
     (case InvokeRpcClientStream (stub w) ctx (mtd w) (callOptions w) of
        Inl err \<Rightarrow>
          (Return None,
           CallInvokeRpcClientStream # logw w ''Invoke Client Streaming RPC call error'' (Some err))
      | Inr str \<Rightarrow>
          (case makeClientStreamingRequest_loop w str input 0 None of
             (Return _, evs) \<Rightarrow> (Return None, CallInvokeRpcClientStream # evs)
           | (Panic p, evs) \<Rightarrow> (Panic p, CallInvokeRpcClientStream # evs)))"

subsection \<open>\<^verbatim>\<open>makeServerStreamingRequest\<close>\<close>

text \<open>
  The loop of lines 319 to 334. \<open>err\<close> is the variable declared in line 310, which the
  loop condition reads and line 336 returns. Line 320 declares a second \<open>err\<close> with
  \<^verbatim>\<open>:=\<close> inside the loop body: the test and the assignment of lines 328 to 331 are on that
  inner variable (\<open>err_in\<close> below), whose scope ends with the iteration. \<open>k\<close> counts the
  calls of \<^verbatim>\<open>RecvMsg\<close>. A remote side that sends messages for ever keeps the loop running:
  the result is then \<open>None\<close>.
\<close>

partial_function (option) makeServerStreamingRequest_loop ::
  "Worker \<Rightarrow> Stream \<Rightarrow> nat \<Rightarrow> error option \<Rightarrow> (error option \<times> event list) option" where
  "makeServerStreamingRequest_loop w str k err =
     (if err \<noteq> None then Some (err, [])
      else
        (let err_in = err_of (RecvMsg str k);
             evs = CallRecvMsg # logw w ''Receive message'' err_in
         in if err_in \<noteq> None then
              (let err_in' = (if err_in = Some EOF then None else err_in)
               in Some (err, evs))
            else
              Option.bind (makeServerStreamingRequest_loop w str (k + 1) err)
                (\<lambda>r. Some (fst r, evs @ snd r))))"

definition makeServerStreamingRequest ::
  "Worker \<Rightarrow> Context \<Rightarrow> message \<Rightarrow> (error option outcome \<times> event list) option" where
  "makeServerStreamingRequest w ctx input =
     (case InvokeRpcServerStream (stub w) ctx (mtd w) input (callOptions w) of
        Inl err \<Rightarrow>
          Some (Return (Some err),
                CallInvokeRpcServerStream input
                  # logw w ''Invoke Server Streaming RPC call error'' (Some err))
      | Inr str \<Rightarrow>
          (case makeServerStreamingRequest_loop w str 0 None of
             None \<Rightarrow> None
           | Some (r, evs) \<Rightarrow> Some (Return r, CallInvokeRpcServerStream input # evs)))"

subsection \<open>\<^verbatim>\<open>makeUnaryRequest\<close>\<close>

definition makeUnaryRequest ::
  "Worker \<Rightarrow> Context \<Rightarrow> MD \<Rightarrow> message \<Rightarrow> error option outcome \<times> event list" where
  "makeUnaryRequest w ctx reqMD input =
     (let resErr = err_of (InvokeRpc (stub w) ctx (mtd w) input (callOptions w))
      in (Return resErr, CallInvokeRpc input # logw w ''Received response'' resErr))"

subsection \<open>\<^verbatim>\<open>makeBidiRequest\<close>\<close>

text \<open>
  The goroutine of lines 395 to 410: it receives until \<^verbatim>\<open>RecvMsg\<close> reports an error
  (end of stream included), then closes \<^verbatim>\<open>recvDone\<close> and ends. The result is what the
  goroutine did up to there; \<open>None\<close> when no call of \<^verbatim>\<open>RecvMsg\<close> ever reports an error, so
  that \<^verbatim>\<open>recvDone\<close> is never closed.
\<close>

partial_function (option) makeBidiRequest_receiver ::
  "Worker \<Rightarrow> Stream \<Rightarrow> nat \<Rightarrow> event list option" where
  "makeBidiRequest_receiver w str k =
     (let err = err_of (RecvMsg str k);
          evs = CallRecvMsg # logw w ''Receive message'' err
      in if err \<noteq> None then Some evs
         else Option.bind (makeBidiRequest_receiver w str (k + 1))
                (\<lambda>evs'. Some (evs @ evs')))"

text \<open>
  The send loop of lines 412 to 440; its result is the value of \<open>err\<close> when the loop is
  left.
\<close>

function makeBidiRequest_loop ::
  "Worker \<Rightarrow> Stream \<Rightarrow> message slice \<Rightarrow> nat \<Rightarrow> error option \<Rightarrow> error option outcome \<times> event list" where
  "makeBidiRequest_loop w str input counter err =
     (if err \<noteq> None then (Return err, [])
      else if counter = len input then
        (Return err, CallCloseSend # logw w ''Close send'' (CloseSend str))
      else if \<not> counter < len input then (Panic ''index out of range'', [])
      else
        (let payload = elems input ! counter;
             err' = SendMsg str counter payload;
             evs = wait w @ [CallSendMsg payload] @ logw w ''Send message'' err'
         in (case makeBidiRequest_loop w str input (counter + 1) err' of
               (r, evs') \<Rightarrow> (r, evs @ evs'))))"
  by pat_completeness auto
termination
  by (relation "measure (\<lambda>(w, str, input, counter, err). len input - counter)") auto

declare makeBidiRequest_loop.simps [simp del]

text \<open>
  What became of the receiving goroutine when the adapter returned: never started; ended
  (it had closed \<^verbatim>\<open>recvDone\<close>, and the adapter had read from the channel) with the events
  it produced; or started and not waited for.
\<close>

datatype receiver = NotStarted | Joined "event list" | NotAwaited

text \<open>
  The adapter runs in the calling goroutine; its events are the second component. The
  read \<^verbatim>\<open><-recvDone\<close> of line 443 returns only once the goroutine has closed the
  channel: when the goroutine never does, the adapter does not return (\<open>None\<close>).
\<close>

definition makeBidiRequest ::
  "Worker \<Rightarrow> Context \<Rightarrow> message slice \<Rightarrow> (error option outcome \<times> event list \<times> receiver) option" where
  "makeBidiRequest w ctx input =
     (case InvokeRpcBidiStream (stub w) ctx (mtd w) (callOptions w) of
        Inl err \<Rightarrow>
          Some (Return (Some err),
                CallInvokeRpcBidiStream # logw w ''Invoke Bidi RPC call error'' (Some err),
                NotStarted)
      | Inr str \<Rightarrow>
          if input = None \<or> len input = 0 then
            Some (Return None,
                  CallInvokeRpcBidiStream # CallCloseSend # logw w ''Close send'' (CloseSend str),
                  NotStarted)
          else
            (case makeBidiRequest_loop w str input 0 None of
               (Panic p, evs) \<Rightarrow> Some (Panic p, CallInvokeRpcBidiStream # GoReceiver # evs, NotAwaited)
             | (Return err, evs) \<Rightarrow>
                 if err = None then
                   (case makeBidiRequest_receiver w str 0 of
                      None \<Rightarrow> None
                    | Some revs \<Rightarrow>
                        Some (Return None,
                              CallInvokeRpcBidiStream # GoReceiver # evs @ [RecvDone],
                              Joined revs))
                 else
                   Some (Return None, CallInvokeRpcBidiStream # GoReceiver # evs, NotAwaited)))"

section \<open>Call builder: \<^verbatim>\<open>makeRequest\<close>\<close>

text \<open>
  Go's \<^verbatim>\<open>%\<close> on \<^verbatim>\<open>int64\<close> truncates towards zero: the remainder has the sign of the
  dividend. Both uses in the file have a divisor that was tested to be positive.
\<close>

definition go_rem :: "int64 \<Rightarrow> int64 \<Rightarrow> int64" where
  "go_rem a b = word_of_int (sint a smod sint b)"

text \<open>\<^verbatim>\<open>int((reqNum - 1) % int64(n))\<close> of lines 119 and 181, for a length \<open>n\<close>.\<close>

definition roundRobin :: "int64 \<Rightarrow> nat \<Rightarrow> int" where
  "roundRobin reqNum n = sint (go_rem (reqNum - 1) (word_of_nat n))"

text \<open>\<^verbatim>\<open>xs[i]\<close>: Go panics when the index is negative or not below the length.\<close>

definition index :: "'a list \<Rightarrow> int \<Rightarrow> 'a outcome" where
  "index xs i =
     (if 0 \<le> i \<and> i < int (length xs) then Return (xs ! nat i)
      else Panic ''index out of range'')"

text \<open>
  \<^verbatim>\<open>metadata.New\<close> and \<^verbatim>\<open>MD.Append\<close> of \<^verbatim>\<open>google.golang.org/grpc/metadata\<close> (external; the
  lower-casing of header names is left out).
\<close>

definition metadata_New :: "(string \<times> string) list \<Rightarrow> MD" where
  "metadata_New m = map (\<lambda>kv. (fst kv, [snd kv])) m"

definition MD_Append :: "string \<Rightarrow> string \<Rightarrow> MD \<Rightarrow> MD" where
  "MD_Append k v md =
     (case map_of md k of
        None \<Rightarrow> md @ [(k, [v])]
      | Some vs \<Rightarrow> map (\<lambda>kv. if fst kv = k then (k, vs @ [v]) else kv) md)"

text \<open>Lines 114 to 127: the data handed to \<^verbatim>\<open>getMessages\<close>, and its result.\<close>

definition makeRequest_inputs ::
  "Env \<Rightarrow> Worker \<Rightarrow> callTemplateData \<Rightarrow> int64 \<Rightarrow>
   ((error + message slice) \<times> Worker \<times> event list) outcome" where
  "makeRequest_inputs e w ctd reqNum =
     (if \<not> binary (config w) \<and> \<not> IsClientStreaming (mtd w) \<and> len (arrayJSONData w) > 0 then
        (case index (elems (arrayJSONData w)) (roundRobin reqNum (len (arrayJSONData w))) of
           Panic p \<Rightarrow> Panic p
         | Return d \<Rightarrow> Return (getMessages e w ctd d))
      else Return (getMessages e w ctd (data (config w))))"

text \<open>Lines 134 to 144.\<close>

definition makeRequest_reqMD :: "Worker \<Rightarrow> (string \<times> string) list \<Rightarrow> MD" where
  "makeRequest_reqMD w mdMap =
     (let reqMD = (if length mdMap > 0 then metadata_New mdMap else [])
      in if enableCompression (config w) then MD_Append ''grpc-accept-encoding'' ''gzip'' reqMD
         else reqMD)"

text \<open>Lines 146 to 159.\<close>

definition makeRequest_ctx :: "Worker \<Rightarrow> MD \<Rightarrow> Context" where
  "makeRequest_ctx w reqMD =
     \<lparr>deadline = (if timeout (config w) > 0 then Some (timeout (config w)) else None),
      outgoing = Some reqMD\<rparr>"

text \<open>Lines 161 to 170.\<close>

definition callType :: "Worker \<Rightarrow> string" where
  "callType w =
     (if IsClientStreaming (mtd w) \<and> IsServerStreaming (mtd w) then ''bidi''
      else if IsServerStreaming (mtd w) then ''server-streaming''
      else if IsClientStreaming (mtd w) then ''client-streaming''
      else ''unary'')"

text \<open>
  Lines 184 to 193: one adapter is called and its result is assigned to \<^verbatim>\<open>_\<close>; what is
  kept here is whether the adapter returned or panicked, and its events.
\<close>

definition makeRequest_dispatch ::
  "Worker \<Rightarrow> Context \<Rightarrow> MD \<Rightarrow> message slice \<Rightarrow> message \<Rightarrow>
   (error option outcome \<times> event list) option" where
  "makeRequest_dispatch w ctx reqMD inputs unaryInput =
     (if IsClientStreaming (mtd w) \<and> IsServerStreaming (mtd w) then
        map_option (\<lambda>r. (fst r, fst (snd r))) (makeBidiRequest w ctx inputs)
      else if IsClientStreaming (mtd w) then Some (makeClientStreamingRequest w ctx inputs)
      else if IsServerStreaming (mtd w) then makeServerStreamingRequest w ctx unaryInput
      else Some (makeUnaryRequest w ctx reqMD unaryInput))"

definition makeRequest ::
  "Env \<Rightarrow> Worker \<Rightarrow> int64 \<Rightarrow> (error option outcome \<times> Worker \<times> event list) option" where
  "makeRequest e w reqNum =
     (let ctd = newCallTemplateData (mtd w) (workerID w) reqNum
      in case makeRequest_inputs e w ctd reqNum of
           Panic p \<Rightarrow> Some (Panic p, w, [])
         | Return (Inl err, w1, evs1) \<Rightarrow> Some (Return (Some err), w1, evs1)
         | Return (Inr inputs, w1, evs1) \<Rightarrow>
             (case executeMetadata e ctd (metadata (config w1)) of
                Inl err \<Rightarrow> Some (Return (Some err), w1, evs1 @ [CallExecuteMetadata])
              | Inr mdMap \<Rightarrow>
                  (let err = None;
                       reqMD = makeRequest_reqMD w1 mdMap;
                       ctx = makeRequest_ctx w1 reqMD;
                       evs2 = evs1 @ [CallExecuteMetadata]
                                @ logw w1 (''Making request '' @ callType w1) None;
                       inputsLen = len inputs
                   in if inputsLen = 0 then
                        Some (Return (Some (Errorf ''no data provided for request'')), w1, evs2)
                      else
                        (case index (elems inputs) (roundRobin reqNum inputsLen) of
                           Panic p \<Rightarrow> Some (Panic p, w1, evs2)
                         | Return unaryInput \<Rightarrow>
                             (case makeRequest_dispatch w1 ctx reqMD inputs unaryInput of
                                None \<Rightarrow> None
                              | Some (Panic p, evs3) \<Rightarrow> Some (Panic p, w1, evs2 @ evs3)
                              | Some (Return _, evs3) \<Rightarrow> Some (Return err, w1, evs2 @ evs3))))))"

section \<open>Request scheduler: \<^verbatim>\<open>runWorker\<close>\<close>

text \<open>\<^verbatim>\<open>ConditionChecker\<close>: worker identity, last error, request count, elapsed time.\<close>

type_synonym ConditionChecker = "string \<Rightarrow> error option \<Rightarrow> int64 \<Rightarrow> duration \<Rightarrow> bool"

text \<open>
  The loop of lines 65 to 81, from the head of its \<open>i\<close>-th iteration. \<open>done i\<close> says
  whether a receive from \<^verbatim>\<open>w.done\<close> can proceed when the \<^verbatim>\<open>select\<close> of that iteration
  runs (the \<^verbatim>\<open>default\<close> branch is taken only when it cannot), and \<open>since i\<close> is the
  value of \<^verbatim>\<open>time.Since(start)\<close> there. \<open>err\<close>, \<open>rErr\<close> and \<open>n\<close> are the variables of
  lines 60 and 63. Line 74 declares a new \<open>rErr\<close> with \<^verbatim>\<open>:=\<close> in the block of the
  \<^verbatim>\<open>if\<close>: it is \<open>rErr'\<close> here, and the outer \<open>rErr\<close> that line 70 passes to the
  condition is never assigned. \<^verbatim>\<open>atomic.AddInt64\<close> adds 1 to the shared counter and
  returns the new value. The result holds the returned error, the worker, the value of
  \<open>err\<close> at the return, and the events; it is \<open>None\<close> when the loop never returns.
\<close>

partial_function (option) runWorker_loop ::
  "Env \<Rightarrow> ConditionChecker \<Rightarrow> bool \<Rightarrow> (nat \<Rightarrow> bool) \<Rightarrow> (nat \<Rightarrow> duration) \<Rightarrow>
   Worker \<Rightarrow> error option \<Rightarrow> error option \<Rightarrow> int64 \<Rightarrow> nat \<Rightarrow> event list \<Rightarrow>
   (error option outcome \<times> Worker \<times> error option \<times> event list) option" where
  "runWorker_loop e cond stopOnCond done since w err rErr n i evs =
     (if done i then Some (Return None, w, err, evs)
      else
        (let evs1 = evs @ [CallCond (workerID w) rErr n (since i)]
         in if cond (workerID w) rErr n (since i) then
              (let reqNum = reqCounter w + 1;
                   w1 = w\<lparr>reqCounter := reqNum\<rparr>;
                   n' = n + 1
               in Option.bind (makeRequest e w1 reqNum)
                    (\<lambda>r. case fst r of
                            Panic p \<Rightarrow> Some (Panic p, fst (snd r), err, evs1 @ snd (snd r))
                          | Return rErr' \<Rightarrow>
                              runWorker_loop e cond stopOnCond done since (fst (snd r))
                                (multierr_Append err rErr') rErr n' (i + 1) (evs1 @ snd (snd r))))
            else if stopOnCond then Some (Return err, w, err, evs1)
            else runWorker_loop e cond stopOnCond done since w err rErr n (i + 1) evs1))"

definition runWorker ::
  "Env \<Rightarrow> Worker \<Rightarrow> ConditionChecker \<Rightarrow> bool \<Rightarrow> (nat \<Rightarrow> bool) \<Rightarrow> (nat \<Rightarrow> duration) \<Rightarrow>
   (error option outcome \<times> Worker \<times> error option \<times> event list) option" where
  "runWorker e w cond stopOnCond done since =
     runWorker_loop e cond stopOnCond done since w None None 0 0 []"

section \<open>Properties the claims speak of\<close>

text \<open>The events that are a call into the invocation stub or one of its streams.\<close>

fun is_rpc :: "event \<Rightarrow> bool" where
  "is_rpc (CallInvokeRpc _) = True"
| "is_rpc CallInvokeRpcClientStream = True"
| "is_rpc (CallInvokeRpcServerStream _) = True"
| "is_rpc CallInvokeRpcBidiStream = True"
| "is_rpc (CallSendMsg _) = True"
| "is_rpc CallRecvMsg = True"
| "is_rpc CallCloseSend = True"
| "is_rpc CallCloseAndReceive = True"
| "is_rpc _ = False"

text \<open>
  A stream ends when some receive reports an error (the end of the stream is one). The
  receive loops return only on such a stream; a call with a deadline is one, since the
  transport then fails every receive after the deadline.
\<close>

definition ends :: "Stream \<Rightarrow> bool" where
  "ends str = (\<exists>k. err_of (RecvMsg str k) \<noteq> None)"

definition streams_end :: "Stub \<Rightarrow> bool" where
  "streams_end s =
     (\<forall>ctx m input opts str.
        InvokeRpcServerStream s ctx m input opts = Inr str \<or> InvokeRpcBidiStream s ctx m opts = Inr str
          \<longrightarrow> ends str)"

section \<open>Concrete collaborators\<close>

text \<open>
  Small collaborators on which the definitions are evaluated. The decoder turns every
  character of the resolved data into one payload, so that the empty data resolves to an
  empty payload set; the metadata template \<open>''bad''\<close> does not expand.
\<close>

definition exEnv :: Env where
  "exEnv =
     \<lparr>executeData = (\<lambda>ctd s. Inr s),
      executeMetadata = (\<lambda>ctd s. if s = ''bad'' then Inl (Failure ''template'') else Inr []),
      createPayloadsFromJSON = (\<lambda>s m. Inr (Some (map (\<lambda>c. [c]) s))),
      createPayloadsFromBin = (\<lambda>s m. Inr (Some (map (\<lambda>c. [c]) s)))\<rparr>"

definition exConfig :: "bool \<Rightarrow> string \<Rightarrow> string \<Rightarrow> RunConfig" where
  "exConfig bin d md =
     \<lparr>binary = bin, data = d, metadata = md, timeout = 0, streamInterval = 0,
      enableCompression = False, hasLog = False\<rparr>"

definition exMtd :: "bool \<Rightarrow> bool \<Rightarrow> MethodDescriptor" where
  "exMtd cs ss =
     \<lparr>IsClientStreaming = cs, IsServerStreaming = ss, GetFullyQualifiedName = ''pkg.Svc.Call''\<rparr>"

text \<open>A stream on which the remote side answers twice and then ends the stream.\<close>

definition okStream :: Stream where
  "okStream =
     \<lparr>SendMsg = (\<lambda>k m. None),
      RecvMsg = (\<lambda>k. if k < 2 then Inr ''r'' else Inl EOF),
      CloseSend = None,
      CloseAndReceive = Inr ''r''\<rparr>"

text \<open>A stream on which every send fails and the remote side never stops answering.\<close>

definition sendFailStream :: Stream where
  "sendFailStream =
     \<lparr>SendMsg = (\<lambda>k m. Some (Failure ''transport is closing'')),
      RecvMsg = (\<lambda>k. Inr ''r''),
      CloseSend = None,
      CloseAndReceive = Inr ''r''\<rparr>"

text \<open>A stream on which the first receive fails with an error that is not end-of-stream.\<close>

definition recvFailStream :: Stream where
  "recvFailStream =
     \<lparr>SendMsg = (\<lambda>k m. None),
      RecvMsg = (\<lambda>k. Inl (Failure ''deadline exceeded'')),
      CloseSend = None,
      CloseAndReceive = Inl (Failure ''deadline exceeded'')\<rparr>"

definition exStub :: "Stream \<Rightarrow> Stub" where
  "exStub str =
     \<lparr>InvokeRpc = (\<lambda>ctx m input opts. Inl (Failure ''unavailable'')),
      InvokeRpcClientStream = (\<lambda>ctx m opts. Inr str),
      InvokeRpcServerStream = (\<lambda>ctx m input opts. Inr str),
      InvokeRpcBidiStream = (\<lambda>ctx m opts. Inr str)\<rparr>"

definition exWorker :: "Stream \<Rightarrow> MethodDescriptor \<Rightarrow> RunConfig \<Rightarrow> Worker" where
  "exWorker str m cfg =
     \<lparr>stub = exStub str, mtd = m, config = cfg, reqCounter = 0, workerID = ''g0c0'',
      cachedMessages = None, arrayJSONData = None, active = True\<rparr>"

definition exCtx :: Context where
  "exCtx = \<lparr>deadline = None, outgoing = Some []\<rparr>"

section \<open>Theorems\<close>

subsection \<open>The payload cache\<close>

lemma getMessages_cached:
  "cachedMessages w = Some ms \<Longrightarrow> getMessages e w ctd d = (Inr (Some ms), w, [])"
  by (simp add: getMessages_def)

lemma getMessages_calls_cached:
  "cachedMessages w = Some ms \<Longrightarrow>
   getMessages_calls e w cs = (replicate (length cs) (Inr (Some ms)), w, [])"
  by (induction cs) (auto simp: getMessages_cached)

subsection \<open>Receiving loops\<close>

lemma receiver_step_err:
  "err_of (RecvMsg str k) \<noteq> None \<Longrightarrow>
   makeBidiRequest_receiver w str k =
     Some (CallRecvMsg # logw w ''Receive message'' (err_of (RecvMsg str k)))"
  by (subst makeBidiRequest_receiver.simps) (simp add: Let_def)

lemma receiver_step_msg:
  "err_of (RecvMsg str k) = None \<Longrightarrow>
   makeBidiRequest_receiver w str k =
     Option.bind (makeBidiRequest_receiver w str (k + 1))
       (\<lambda>evs'. Some ((CallRecvMsg # logw w ''Receive message'' None) @ evs'))"
  by (subst makeBidiRequest_receiver.simps) (simp add: Let_def)

lemma receiver_returns:
  "err_of (RecvMsg str (k + d)) \<noteq> None \<Longrightarrow> \<exists>evs. makeBidiRequest_receiver w str k = Some evs"
proof (induction d arbitrary: k)
  case 0
  then show ?case by (simp add: receiver_step_err)
next
  case (Suc d)
  show ?case
  proof (cases "err_of (RecvMsg str k) = None")
    case True
    from Suc.prems have "err_of (RecvMsg str (Suc k + d)) \<noteq> None" by simp
    from Suc.IH [OF this] obtain evs where "makeBidiRequest_receiver w str (Suc k) = Some evs" ..
    with True show ?thesis by (simp add: receiver_step_msg)
  next
    case False
    then show ?thesis by (simp add: receiver_step_err)
  qed
qed

lemma receiver_sees_end:
  "makeBidiRequest_receiver w str k = Some evs \<Longrightarrow> \<exists>j\<ge>k. err_of (RecvMsg str j) \<noteq> None"
proof (induction rule: makeBidiRequest_receiver.raw_induct [rotated 1, consumes 1])
  case (1 rcv w str k evs)
  show ?case
  proof (cases "err_of (RecvMsg str k) = None")
    case True
    with 1(2) obtain evs' where "rcv w str (k + 1) = Some evs'"
      by (auto simp: Let_def split: Option.bind_splits)
    from 1(1) [OF this] obtain j where "j \<ge> k + 1" "err_of (RecvMsg str j) \<noteq> None" by blast
    then show ?thesis by (intro exI [of _ j]) simp
  next
    case False
    then show ?thesis by blast
  qed
qed

lemma receiver_never:
  "(\<And>j. err_of (RecvMsg str j) = None) \<Longrightarrow> makeBidiRequest_receiver w str k = None"
  using receiver_sees_end [of w str k] by (cases "makeBidiRequest_receiver w str k") auto

lemma server_loop_step_err:
  "err_of (RecvMsg str k) \<noteq> None \<Longrightarrow>
   makeServerStreamingRequest_loop w str k None =
     Some (None, CallRecvMsg # logw w ''Receive message'' (err_of (RecvMsg str k)))"
  by (subst makeServerStreamingRequest_loop.simps) (simp add: Let_def)

lemma server_loop_step_msg:
  "err_of (RecvMsg str k) = None \<Longrightarrow>
   makeServerStreamingRequest_loop w str k None =
     Option.bind (makeServerStreamingRequest_loop w str (k + 1) None)
       (\<lambda>r. Some (fst r, (CallRecvMsg # logw w ''Receive message'' None) @ snd r))"
  by (subst makeServerStreamingRequest_loop.simps) (simp add: Let_def)

lemma server_loop_returns:
  "err_of (RecvMsg str (k + d)) \<noteq> None \<Longrightarrow>
   \<exists>evs. makeServerStreamingRequest_loop w str k None = Some (None, evs)"
proof (induction d arbitrary: k)
  case 0
  then show ?case by (simp add: server_loop_step_err)
next
  case (Suc d)
  show ?case
  proof (cases "err_of (RecvMsg str k) = None")
    case True
    from Suc.prems have "err_of (RecvMsg str (Suc k + d)) \<noteq> None" by simp
    from Suc.IH [OF this] obtain evs
      where "makeServerStreamingRequest_loop w str (Suc k) None = Some (None, evs)" ..
    with True show ?thesis by (simp add: server_loop_step_msg)
  next
    case False
    then show ?thesis by (simp add: server_loop_step_err)
  qed
qed

lemma server_loop_result:
  "makeServerStreamingRequest_loop w str k err = Some r \<Longrightarrow> fst r = err"
proof (induction rule: makeServerStreamingRequest_loop.raw_induct [rotated 1, consumes 1])
  case (1 loop w str k err r)
  show ?case
  proof (cases "err = None \<and> err_of (RecvMsg str k) = None")
    case True
    with 1(2) have
      "Option.bind (loop w str (k + 1) err)
         (\<lambda>r'. Some (fst r', (CallRecvMsg # logw w ''Receive message'' None) @ snd r')) = Some r"
      by (simp add: Let_def)
    then obtain r' where r': "loop w str (k + 1) err = Some r'" and "fst r = fst r'"
      by (auto simp: bind_eq_Some_conv)
    with 1(1) [OF r'] show ?thesis by simp
  next
    case False
    with 1(2) show ?thesis by (auto simp: Let_def split: if_splits)
  qed
qed

subsection \<open>Sending loops\<close>

lemma bidi_loop_err:
  "makeBidiRequest_loop w str input counter (Some e) = (Return (Some e), [])"
  by (subst makeBidiRequest_loop.simps) simp

lemma bidi_loop_close:
  "counter = len input \<Longrightarrow>
   makeBidiRequest_loop w str input counter None =
     (Return None, CallCloseSend # logw w ''Close send'' (CloseSend str))"
  by (subst makeBidiRequest_loop.simps) simp

lemma bidi_loop_send:
  "counter < len input \<Longrightarrow>
   makeBidiRequest_loop w str input counter None =
     (fst (makeBidiRequest_loop w str input (counter + 1)
             (SendMsg str counter (elems input ! counter))),
      wait w @ [CallSendMsg (elems input ! counter)]
        @ logw w ''Send message'' (SendMsg str counter (elems input ! counter))
        @ snd (makeBidiRequest_loop w str input (counter + 1)
                 (SendMsg str counter (elems input ! counter))))"
  by (subst makeBidiRequest_loop.simps) (simp add: Let_def split: prod.splits)

lemma bidi_loop_no_panic:
  "counter \<le> len input \<Longrightarrow> \<exists>r. fst (makeBidiRequest_loop w str input counter err) = Return r"
proof (induction "len input - counter" arbitrary: counter err)
  case 0
  then have "counter = len input" by simp
  then show ?case by (cases err) (simp_all add: bidi_loop_err bidi_loop_close)
next
  case (Suc m)
  then have lt: "counter < len input" and m: "m = len input - (counter + 1)" by simp_all
  show ?case
  proof (cases err)
    case None
    from Suc(1) [OF m] lt show ?thesis unfolding None by (simp add: bidi_loop_send)
  next
    case (Some e)
    then show ?thesis by (simp add: bidi_loop_err)
  qed
qed

lemma bidi_loop_sent_all:
  "counter \<le> len input \<Longrightarrow>
   (\<And>k. counter \<le> k \<Longrightarrow> k < len input \<Longrightarrow> SendMsg str k (elems input ! k) = None) \<Longrightarrow>
   fst (makeBidiRequest_loop w str input counter None) = Return None"
proof (induction "len input - counter" arbitrary: counter)
  case 0
  then have "counter = len input" by simp
  then show ?case by (simp add: bidi_loop_close)
next
  case (Suc m)
  then have lt: "counter < len input" and m: "m = len input - (counter + 1)" by simp_all
  have s: "SendMsg str counter (elems input ! counter) = None" using Suc(4) lt by simp
  have "fst (makeBidiRequest_loop w str input (counter + 1) None) = Return None"
    using Suc(1) [OF m] lt Suc(4) by simp
  with lt s show ?case by (simp add: bidi_loop_send)
qed

lemma bidi_loop_send_failed:
  "counter \<le> j \<Longrightarrow> j < len input \<Longrightarrow> SendMsg str j (elems input ! j) \<noteq> None \<Longrightarrow>
   \<exists>e. fst (makeBidiRequest_loop w str input counter None) = Return (Some e)"
proof (induction "j - counter" arbitrary: counter)
  case 0
  then have "counter = j" by simp
  with 0 show ?case by (auto simp: bidi_loop_send bidi_loop_err)
next
  case (Suc m)
  then have lt: "counter < len input" and m: "m = j - (counter + 1)" and le: "counter + 1 \<le> j"
    by simp_all
  show ?case
  proof (cases "SendMsg str counter (elems input ! counter)")
    case None
    from Suc(1) [OF m le Suc(4,5)] lt None show ?thesis by (simp add: bidi_loop_send)
  next
    case (Some e)
    with lt show ?thesis by (simp add: bidi_loop_send bidi_loop_err)
  qed
qed

lemma client_loop_err:
  "makeClientStreamingRequest_loop w str input counter (Some e) = (Return (), [])"
  by (subst makeClientStreamingRequest_loop.simps) simp

lemma client_loop_empty:
  "len input = 0 \<Longrightarrow>
   makeClientStreamingRequest_loop w str input counter None = (Return (), closeAndReceive w str)"
  by (subst makeClientStreamingRequest_loop.simps) simp

lemma client_loop_close:
  "counter = len input \<Longrightarrow>
   makeClientStreamingRequest_loop w str input counter None = (Return (), closeAndReceive w str)"
  by (subst makeClientStreamingRequest_loop.simps) simp

lemma client_loop_send:
  "counter < len input \<Longrightarrow>
   fst (makeClientStreamingRequest_loop w str input counter None) =
     (if SendMsg str counter (elems input ! counter) = Some EOF then Return ()
      else fst (makeClientStreamingRequest_loop w str input (counter + 1)
                  (SendMsg str counter (elems input ! counter))))"
  by (subst makeClientStreamingRequest_loop.simps) (auto simp: Let_def len_def split: prod.splits)

lemma client_loop_no_panic:
  "counter \<le> len input \<Longrightarrow> fst (makeClientStreamingRequest_loop w str input counter err) = Return ()"
proof (induction "len input - counter" arbitrary: counter err)
  case 0
  then have "counter = len input" by simp
  then show ?case by (cases err) (simp_all add: client_loop_err client_loop_close)
next
  case (Suc m)
  then have lt: "counter < len input" and m: "m = len input - (counter + 1)" by simp_all
  show ?case
  proof (cases err)
    case None
    from Suc(1) [OF m] lt show ?thesis unfolding None by (simp add: client_loop_send)
  next
    case (Some e)
    then show ?thesis by (simp add: client_loop_err)
  qed
qed

subsection \<open>The bidirectional adapter, case by case\<close>

lemma makeBidiRequest_open_failed:
  "InvokeRpcBidiStream (stub w) ctx (mtd w) (callOptions w) = Inl err \<Longrightarrow>
   makeBidiRequest w ctx input =
     Some (Return (Some err),
           CallInvokeRpcBidiStream # logw w ''Invoke Bidi RPC call error'' (Some err), NotStarted)"
  by (simp add: makeBidiRequest_def)

lemma makeBidiRequest_empty:
  "InvokeRpcBidiStream (stub w) ctx (mtd w) (callOptions w) = Inr str \<Longrightarrow> len input = 0 \<Longrightarrow>
   makeBidiRequest w ctx input =
     Some (Return None,
           CallInvokeRpcBidiStream # CallCloseSend # logw w ''Close send'' (CloseSend str),
           NotStarted)"
  by (simp add: makeBidiRequest_def)

lemma makeBidiRequest_send_failed:
  assumes "InvokeRpcBidiStream (stub w) ctx (mtd w) (callOptions w) = Inr str"
    and "0 < len input"
    and "fst (makeBidiRequest_loop w str input 0 None) = Return (Some e)"
  shows "makeBidiRequest w ctx input =
     Some (Return None,
           CallInvokeRpcBidiStream # GoReceiver # snd (makeBidiRequest_loop w str input 0 None),
           NotAwaited)"
  using assms
  by (cases "makeBidiRequest_loop w str input 0 None")
     (auto simp: makeBidiRequest_def len_def split: option.splits)

lemma makeBidiRequest_sent_all:
  assumes "InvokeRpcBidiStream (stub w) ctx (mtd w) (callOptions w) = Inr str"
    and "0 < len input"
    and "fst (makeBidiRequest_loop w str input 0 None) = Return None"
  shows "makeBidiRequest w ctx input =
     map_option
       (\<lambda>revs. (Return None,
                 CallInvokeRpcBidiStream # GoReceiver
                   # snd (makeBidiRequest_loop w str input 0 None) @ [RecvDone],
                 Joined revs))
       (makeBidiRequest_receiver w str 0)"
  using assms
  by (cases "makeBidiRequest_loop w str input 0 None")
     (auto simp: makeBidiRequest_def len_def split: option.splits)

lemma makeBidiRequest_result:
  "(\<forall>r evs rc. makeBidiRequest w ctx input = Some (r, evs, rc) \<longrightarrow>
      r = Return (err_of (InvokeRpcBidiStream (stub w) ctx (mtd w) (callOptions w))))
   \<and> ((\<forall>str. InvokeRpcBidiStream (stub w) ctx (mtd w) (callOptions w) = Inr str \<longrightarrow>
          (\<exists>k. err_of (RecvMsg str k) \<noteq> None)) \<longrightarrow>
       makeBidiRequest w ctx input \<noteq> None)"
proof (cases "InvokeRpcBidiStream (stub w) ctx (mtd w) (callOptions w)")
  case (Inl err)
  then show ?thesis by (simp add: makeBidiRequest_open_failed err_of_def)
next
  case (Inr str)
  show ?thesis
  proof (cases "len input = 0")
    case True
    with Inr show ?thesis by (simp add: makeBidiRequest_empty err_of_def)
  next
    case False
    then have pos: "0 < len input" by simp
    from bidi_loop_no_panic [of 0 input w str None]
    obtain r where r: "fst (makeBidiRequest_loop w str input 0 None) = Return r" by auto
    show ?thesis
    proof (cases r)
      case None
      have "makeBidiRequest w ctx input \<noteq> None" if "\<exists>k. err_of (RecvMsg str k) \<noteq> None"
      proof -
        from that obtain k where "err_of (RecvMsg str (0 + k)) \<noteq> None" by auto
        from receiver_returns [OF this, of w] show ?thesis
          using makeBidiRequest_sent_all [OF Inr pos r [unfolded None]] by auto
      qed
      then show ?thesis
        using Inr makeBidiRequest_sent_all [OF Inr pos r [unfolded None]]
        by (auto simp: err_of_def)
    next
      case (Some e)
      with Inr makeBidiRequest_send_failed [OF Inr pos r [unfolded Some]] show ?thesis
        by (simp add: err_of_def)
    qed
  qed
qed

subsection \<open>Round-robin index\<close>

lemma smod_nonneg: "0 \<le> (a::int) \<Longrightarrow> 0 < b \<Longrightarrow> a smod b = a mod b"
  by (simp add: smod_int_alt_def sgn_if)

lemma sint_int64_of_int: "- (2 ^ 63) \<le> k \<Longrightarrow> k < 2 ^ 63 \<Longrightarrow> sint (word_of_int k :: int64) = k"
  by (simp add: sint_sbintrunc' signed_take_bit_int_eq_self)

lemma sint_int64_of_nat: "M < 2 ^ 63 \<Longrightarrow> sint (word_of_nat M :: int64) = int M"
proof -
  assume "M < 2 ^ 63"
  then have "int M < 2 ^ 63" by (metis of_nat_less_iff of_nat_numeral of_nat_power)
  then have "sint (word_of_int (int M) :: int64) = int M"
    by (intro sint_int64_of_int) simp_all
  then show ?thesis by simp
qed

lemma sint_int64_pred: "1 \<le> sint (reqNum :: int64) \<Longrightarrow> sint (reqNum - 1) = sint reqNum - 1"
proof -
  assume a: "1 \<le> sint reqNum"
  have "sint reqNum < 2 ^ 63" using sint_lt [of reqNum] by simp
  with a have "signed_take_bit 63 (sint reqNum - 1) = sint reqNum - 1"
    by (intro signed_take_bit_int_eq_self) simp_all
  then show ?thesis by (simp add: sint_word_diff)
qed

lemma roundRobin_eq:
  assumes "1 \<le> sint reqNum" and "0 < M" and "M < 2 ^ 63"
  shows "roundRobin reqNum M = (sint reqNum - 1) mod int M"
proof -
  let ?a = "sint reqNum - 1"
  have a: "0 \<le> ?a" using assms(1) by simp
  have M: "int M < 2 ^ 63" using assms(3) by (metis of_nat_less_iff of_nat_numeral of_nat_power)
  have m: "0 \<le> ?a mod int M" "?a mod int M < int M" using assms(2) by simp_all
  have "go_rem (reqNum - 1) (word_of_nat M) = word_of_int (?a mod int M)"
    using assms a by (simp add: go_rem_def sint_int64_pred sint_int64_of_nat smod_nonneg)
  moreover have "sint (word_of_int (?a mod int M) :: int64) = ?a mod int M"
    using m M by (intro sint_int64_of_int) linarith+
  ultimately show ?thesis by (simp add: roundRobin_def)
qed

lemma index_roundRobin:
  assumes "1 \<le> sint reqNum" and "0 < length xs" and "length xs < 2 ^ 63"
  shows "index xs (roundRobin reqNum (length xs)) =
           Return (xs ! nat ((sint reqNum - 1) mod int (length xs)))"
  using assms by (simp add: roundRobin_eq index_def)

lemma index_elems_roundRobin:
  assumes "1 \<le> sint reqNum" and "0 < len s" and "len s < 2 ^ 63"
  shows "index (elems s) (roundRobin reqNum (len s)) =
           Return (elems s ! nat ((sint reqNum - 1) mod int (len s)))"
  using assms index_roundRobin [of reqNum "elems s"]
  by (cases s) (simp_all add: len_def elems_def)

subsection \<open>The call builder\<close>

lemma getMessages_no_rpc: "getMessages e w ctd d = (r, w1, evs) \<Longrightarrow> filter is_rpc evs = []"
  by (auto simp: getMessages_def split: if_splits sum.splits)

lemma makeRequest_inputs_no_rpc:
  "makeRequest_inputs e w ctd reqNum = Return (r, w1, evs) \<Longrightarrow> filter is_rpc evs = []"
  by (auto simp: makeRequest_inputs_def split: if_splits outcome.splits dest: getMessages_no_rpc)

lemma getMessages_stub: "getMessages e w ctd d = (r, w1, evs) \<Longrightarrow> stub w1 = stub w \<and> mtd w1 = mtd w \<and> config w1 = config w"
  by (auto simp: getMessages_def split: if_splits sum.splits)

lemma makeRequest_inputs_stub:
  "makeRequest_inputs e w ctd reqNum = Return (r, w1, evs) \<Longrightarrow> 
   stub w1 = stub w \<and> mtd w1 = mtd w \<and> config w1 = config w"
  by (auto simp: makeRequest_inputs_def split: if_splits outcome.splits dest: getMessages_stub)

lemma makeRequest_no_data:
  assumes "makeRequest_inputs e w (newCallTemplateData (mtd w) (workerID w) reqNum) reqNum =
             Return (Inr inputs, w1, evs1)"
    and "len inputs = 0"
  shows "makeRequest e w reqNum =
     Some (case executeMetadata e (newCallTemplateData (mtd w) (workerID w) reqNum)
                  (metadata (config w1)) of
             Inl err \<Rightarrow> (Return (Some err), w1, evs1 @ [CallExecuteMetadata])
           | Inr mdMap \<Rightarrow>
               (Return (Some (Errorf ''no data provided for request'')), w1,
                evs1 @ [CallExecuteMetadata] @ logw w1 (''Making request '' @ callType w1) None))"
  using assms by (simp add: makeRequest_def Let_def split: sum.splits)

lemma makeRequest_dispatched:
  assumes "makeRequest_inputs e w (newCallTemplateData (mtd w) (workerID w) reqNum) reqNum =
             Return (Inr inputs, w1, evs1)"
    and "executeMetadata e (newCallTemplateData (mtd w) (workerID w) reqNum)
           (metadata (config w1)) = Inr mdMap"
    and "0 < len inputs" and "len inputs < 2 ^ 63" and "1 \<le> sint reqNum"
  shows "makeRequest e w reqNum =
     (case makeRequest_dispatch w1 (makeRequest_ctx w1 (makeRequest_reqMD w1 mdMap))
             (makeRequest_reqMD w1 mdMap) inputs
             (elems inputs ! nat ((sint reqNum - 1) mod int (len inputs))) of
        None \<Rightarrow> None
      | Some (Panic p, evs3) \<Rightarrow>
          Some (Panic p, w1,
                (evs1 @ [CallExecuteMetadata] @ logw w1 (''Making request '' @ callType w1) None)
                  @ evs3)
      | Some (Return _, evs3) \<Rightarrow>
          Some (Return None, w1,
                (evs1 @ [CallExecuteMetadata] @ logw w1 (''Making request '' @ callType w1) None)
                  @ evs3))"
  using assms(1,2,3) index_elems_roundRobin [OF assms(5,3,4)]
  by (simp add: makeRequest_def Let_def split: option.splits prod.splits outcome.splits)

lemma makeServerStreamingRequest_returns:
  "(\<And>str. InvokeRpcServerStream (stub w) ctx (mtd w) input (callOptions w) = Inr str \<Longrightarrow> ends str)
   \<Longrightarrow> \<exists>r evs. makeServerStreamingRequest w ctx input = Some (Return r, evs)"
proof (cases "InvokeRpcServerStream (stub w) ctx (mtd w) input (callOptions w)")
  case (Inl err)
  then show ?thesis by (simp add: makeServerStreamingRequest_def)
next
  case (Inr str)
  assume "\<And>str. InvokeRpcServerStream (stub w) ctx (mtd w) input (callOptions w) = Inr str \<Longrightarrow> ends str"
  from this [OF Inr] obtain k where "err_of (RecvMsg str (0 + k)) \<noteq> None" by (auto simp: ends_def)
  from server_loop_returns [OF this, of w] Inr show ?thesis
    by (auto simp: makeServerStreamingRequest_def)
qed

lemma makeServerStreamingRequest_no_panic:
  "makeServerStreamingRequest w ctx input = Some (r, evs) \<Longrightarrow> \<exists>x. r = Return x"
  by (auto simp: makeServerStreamingRequest_def split: sum.splits option.splits)

lemma makeClientStreamingRequest_no_panic:
  "\<exists>evs. makeClientStreamingRequest w ctx input = (Return None, evs)"
proof (cases "InvokeRpcClientStream (stub w) ctx (mtd w) (callOptions w)")
  case (Inl err)
  then show ?thesis by (simp add: makeClientStreamingRequest_def)
next
  case (Inr str)
  have "fst (makeClientStreamingRequest_loop w str input 0 None) = Return ()"
    by (rule client_loop_no_panic) simp
  with Inr show ?thesis
    by (cases "makeClientStreamingRequest_loop w str input 0 None")
       (simp add: makeClientStreamingRequest_def)
qed

lemma makeRequest_dispatch_no_panic:
  "makeRequest_dispatch w ctx reqMD inputs u = Some (r, evs) \<Longrightarrow> \<exists>x. r = Return x"
  using makeBidiRequest_result [of w ctx inputs] makeClientStreamingRequest_no_panic [of w ctx inputs]
  by (auto simp: makeRequest_dispatch_def makeUnaryRequest_def Let_def
      split: if_splits dest: makeServerStreamingRequest_no_panic)

lemma makeRequest_dispatch_returns:
  "streams_end (stub w) \<Longrightarrow> makeRequest_dispatch w ctx reqMD inputs u \<noteq> None"
  using makeBidiRequest_result [of w ctx inputs]
    makeServerStreamingRequest_returns [of w ctx u]
  by (auto simp: makeRequest_dispatch_def streams_end_def ends_def)

lemma makeRequest_dispatch_Return:
  "makeRequest_dispatch w ctx reqMD inputs u = Some res \<Longrightarrow> \<exists>x evs. res = (Return x, evs)"
  using makeRequest_dispatch_no_panic [of w ctx reqMD inputs u "fst res" "snd res"]
  by (cases res) auto

subsection \<open>The scheduler loop, step by step\<close>

lemma runWorker_loop_done:
  "done i \<Longrightarrow>
   runWorker_loop e cond stopOnCond done since w err rErr n i evs = Some (Return None, w, err, evs)"
  by (subst runWorker_loop.simps) simp

lemma runWorker_loop_request:
  assumes "\<not> done i" and "cond (workerID w) rErr n (since i)"
    and "makeRequest e (w\<lparr>reqCounter := reqCounter w + 1\<rparr>) (reqCounter w + 1) =
           Some (Return rErr', w2, evs')"
  shows "runWorker_loop e cond stopOnCond done since w err rErr n i evs =
         runWorker_loop e cond stopOnCond done since w2 (multierr_Append err rErr') rErr (n + 1)
           (i + 1) ((evs @ [CallCond (workerID w) rErr n (since i)]) @ evs')"
  using assms by (subst runWorker_loop.simps) (simp add: Let_def)

lemma runWorker_loop_stop:
  "\<not> done i \<Longrightarrow> \<not> cond (workerID w) rErr n (since i) \<Longrightarrow> stopOnCond \<Longrightarrow>
   runWorker_loop e cond stopOnCond done since w err rErr n i evs =
     Some (Return err, w, err, evs @ [CallCond (workerID w) rErr n (since i)])"
  by (subst runWorker_loop.simps) (simp add: Let_def)

lemma runWorker_loop_spin:
  "\<not> done i \<Longrightarrow> \<not> cond (workerID w) rErr n (since i) \<Longrightarrow> \<not> stopOnCond \<Longrightarrow>
   runWorker_loop e cond stopOnCond done since w err rErr n i evs =
     runWorker_loop e cond stopOnCond done since w err rErr n (i + 1)
       (evs @ [CallCond (workerID w) rErr n (since i)])"
  by (subst runWorker_loop.simps) (simp add: Let_def)

section \<open>The claims\<close>

lemmas ex_defs = exEnv_def exConfig_def exMtd_def okStream_def sendFailStream_def recvFailStream_def
  exStub_def exWorker_def exCtx_def

text \<open>A worker whose data resolves to an empty payload set: every request fails.\<close>

lemma exWorker_no_data:
  "makeRequest exEnv ((exWorker okStream (exMtd False False) (exConfig False [] []))\<lparr>reqCounter := c\<rparr>) c =
     Some (Return (Some (Errorf ''no data provided for request'')),
           (exWorker okStream (exMtd False False) (exConfig False [] []))\<lparr>reqCounter := c\<rparr>,
           [CallExecuteData [], CallCreatePayloadsFromJSON, CallExecuteMetadata])"
  by (simp add: makeRequest_def makeRequest_inputs_def getMessages_def ex_defs len_def
      newCallTemplateData_def logw_def)


text \<open>
  C7. Once the worker's cache of decoded payloads is populated, every later call of
  \<^verbatim>\<open>getMessages\<close> returns exactly the cached set, leaves the worker as it is and calls
  neither the template engine nor a decoder, whatever data and templating context it is
  given and however many calls follow. In binary mode a first call whose decoding yields
  a payload set populates the cache, so that any number of requests decode once. (The
  cache is populated when it is not \<^verbatim>\<open>nil\<close>: a decoding that fails stores nothing.)
\<close>

theorem getMessages_decodes_at_most_once:
  "(cachedMessages w = Some ms \<longrightarrow>
      getMessages_calls e w cs = (replicate (length cs) (Inr (Some ms)), w, []))
   \<and> (binary (config w) \<and> cachedMessages w = None
        \<and> createPayloadsFromBin e d (mtd w) = Inr (Some ms) \<longrightarrow>
      getMessages_calls e w ((ctd, d) # cs) =
        (replicate (Suc (length cs)) (Inr (Some ms)), w\<lparr>cachedMessages := Some ms\<rparr>,
         [CallCreatePayloadsFromBin]))"
proof (intro conjI impI)
  assume "cachedMessages w = Some ms"
  then show "getMessages_calls e w cs = (replicate (length cs) (Inr (Some ms)), w, [])"
    by (rule getMessages_calls_cached)
next
  assume a: "binary (config w) \<and> cachedMessages w = None
    \<and> createPayloadsFromBin e d (mtd w) = Inr (Some ms)"
  then have first: "getMessages e w ctd d =
      (Inr (Some ms), w\<lparr>cachedMessages := Some ms\<rparr>, [CallCreatePayloadsFromBin])"
    by (simp add: getMessages_def)
  have "cachedMessages (w\<lparr>cachedMessages := Some ms\<rparr>) = Some ms" by simp
  from getMessages_calls_cached [OF this] first
  show "getMessages_calls e w ((ctd, d) # cs) =
        (replicate (Suc (length cs)) (Inr (Some ms)), w\<lparr>cachedMessages := Some ms\<rparr>,
         [CallCreatePayloadsFromBin])"
    by simp
qed

theorem getMessages_decodes_at_most_once_witness:
  "getMessages_calls exEnv (exWorker okStream (exMtd False False) (exConfig True ''ab'' ''''))
     [(newCallTemplateData (exMtd False False) ''g0c0'' 1, ''ab''),
      (newCallTemplateData (exMtd False False) ''g0c0'' 2, ''ab''),
      (newCallTemplateData (exMtd False False) ''g0c0'' 3, ''ab'')] =
   ([Inr (Some [''a'', ''b'']), Inr (Some [''a'', ''b'']), Inr (Some [''a'', ''b''])],
    (exWorker okStream (exMtd False False) (exConfig True ''ab'' ''''))
      \<lparr>cachedMessages := Some [''a'', ''b'']\<rparr>,
    [CallCreatePayloadsFromBin])
   \<and> getMessages_calls exEnv
       ((exWorker okStream (exMtd False False) (exConfig True ''ab'' ''''))
          \<lparr>cachedMessages := Some [''a'', ''b'']\<rparr>)
       [(newCallTemplateData (exMtd False False) ''g0c0'' 4, ''zz'')] =
     ([Inr (Some [''a'', ''b''])],
      (exWorker okStream (exMtd False False) (exConfig True ''ab'' ''''))
        \<lparr>cachedMessages := Some [''a'', ''b'']\<rparr>,
      [])"
  using getMessages_decodes_at_most_once
    [of "(exWorker okStream (exMtd False False) (exConfig True ''ab'' ''''))
          \<lparr>cachedMessages := Some [''a'', ''b'']\<rparr>"
        "[''a'', ''b'']" exEnv
        "[(newCallTemplateData (exMtd False False) ''g0c0'' 4, ''zz'')]"]
    getMessages_decodes_at_most_once
    [of "exWorker okStream (exMtd False False) (exConfig True ''ab'' '''')"
        "[''a'', ''b'']" exEnv
        "[(newCallTemplateData (exMtd False False) ''g0c0'' 2, ''ab''),
          (newCallTemplateData (exMtd False False) ''g0c0'' 3, ''ab'')]"
        "''ab''" "newCallTemplateData (exMtd False False) ''g0c0'' 1"]
  by (simp add: ex_defs)

text \<open>
  C9. With an empty input payload list (\<^verbatim>\<open>nil\<close> or of length 0), once the stream has
  opened, the client-streaming adapter calls close-and-receive, sends nothing, and
  returns \<^verbatim>\<open>nil\<close>, whatever close-and-receive reports.
\<close>

theorem makeClientStreamingRequest_empty_input:
  "InvokeRpcClientStream (stub w) ctx (mtd w) (callOptions w) = Inr str \<Longrightarrow> len input = 0 \<Longrightarrow>
   makeClientStreamingRequest w ctx input =
     (Return None,
      CallInvokeRpcClientStream # CallCloseAndReceive
        # logw w ''Close and receive'' (err_of (CloseAndReceive str)))"
  by (simp add: makeClientStreamingRequest_def client_loop_empty closeAndReceive_def)

theorem makeClientStreamingRequest_empty_input_witness:
  "makeClientStreamingRequest
     (exWorker recvFailStream (exMtd True False) ((exConfig False [] [])\<lparr>hasLog := True\<rparr>))
     exCtx (Some []) =
   (Return None,
    [CallInvokeRpcClientStream, CallCloseAndReceive,
     Log ''Close and receive'' (Some (Failure ''deadline exceeded''))])"
  using makeClientStreamingRequest_empty_input
    [of "exWorker recvFailStream (exMtd True False) ((exConfig False [] [])\<lparr>hasLog := True\<rparr>)"
        exCtx recvFailStream "Some []"]
  by (simp add: ex_defs len_def logw_def err_of_def)

text \<open>
  C4. The claim says that a receive error other than end-of-stream is returned by the
  server-streaming adapter. On a stream whose first receive fails with a deadline error,
  the adapter logs the error and returns \<^verbatim>\<open>nil\<close>: the error tested in lines 328 to 331 is
  the variable declared inside the loop, and line 336 returns the outer one.
\<close>

theorem makeServerStreamingRequest_drops_receive_error:
  "makeServerStreamingRequest
     (exWorker recvFailStream (exMtd False True) ((exConfig False ''a'' [])\<lparr>hasLog := True\<rparr>))
     exCtx ''a'' =
   Some (Return None,
         [CallInvokeRpcServerStream ''a'', CallRecvMsg,
          Log ''Receive message'' (Some (Failure ''deadline exceeded''))])"
  by (simp add: makeServerStreamingRequest_def server_loop_step_err ex_defs callOptions_def
      err_of_def logw_def)

text \<open>
  C3, as stated: the bidirectional adapter returns an error exactly when a send-path
  failure occurred. It does not: on a stream whose first \<^verbatim>\<open>SendMsg\<close> fails, the adapter
  returns \<^verbatim>\<open>nil\<close> (line 446 returns \<^verbatim>\<open>nil\<close> whatever the send loop left in \<open>err\<close>).
\<close>

theorem makeBidiRequest_send_failure_returns_nil:
  "SendMsg sendFailStream 0 ''a'' = Some (Failure ''transport is closing'')
   \<and> makeBidiRequest (exWorker sendFailStream (exMtd True True) (exConfig False ''a'' [])) exCtx
       (Some [''a'']) =
     Some (Return None, [CallInvokeRpcBidiStream, GoReceiver, CallSendMsg ''a''], NotAwaited)"
  by (simp add: makeBidiRequest_def bidi_loop_send bidi_loop_err ex_defs callOptions_def len_def
      elems_def wait_def logw_def)

text \<open>
  C3, amended: whenever the bidirectional adapter returns, what it returns is the result
  of opening the stream: the error of \<^verbatim>\<open>InvokeRpcBidiStream\<close> when opening failed, \<^verbatim>\<open>nil\<close>
  otherwise, for every input payload list and every outcome of the send and receive
  operations. Neither a send failure nor a receive failure is part of the returned
  error. The adapter does return when every stream the stub opens reports an error or
  the end of the stream on some receive.
\<close>

theorem makeBidiRequest_error_iff_open_failed:
  "(\<forall>r evs rc. makeBidiRequest w ctx input = Some (r, evs, rc) \<longrightarrow>
      r = Return (err_of (InvokeRpcBidiStream (stub w) ctx (mtd w) (callOptions w))))
   \<and> ((\<forall>str. InvokeRpcBidiStream (stub w) ctx (mtd w) (callOptions w) = Inr str \<longrightarrow>
          (\<exists>k. err_of (RecvMsg str k) \<noteq> None)) \<longrightarrow>
       makeBidiRequest w ctx input \<noteq> None)"
  by (rule makeBidiRequest_result)

theorem makeBidiRequest_error_iff_open_failed_witness:
  "InvokeRpcBidiStream (exStub okStream) exCtx (exMtd True True) [] = Inr okStream
   \<and> makeBidiRequest (exWorker okStream (exMtd True True) (exConfig False ''a'' [])) exCtx
       (Some [''a'']) =
     Some (Return None,
           [CallInvokeRpcBidiStream, GoReceiver, CallSendMsg ''a'', CallCloseSend, RecvDone],
           Joined [CallRecvMsg, CallRecvMsg, CallRecvMsg])"
proof -
  let ?w = "exWorker okStream (exMtd True True) (exConfig False ''a'' [])"
  have o: "InvokeRpcBidiStream (stub ?w) exCtx (mtd ?w) (callOptions ?w) = Inr okStream"
    by (simp add: exWorker_def exStub_def)
  have "err_of (RecvMsg okStream 2) \<noteq> None" by (simp add: okStream_def err_of_def)
  then have e: "\<exists>k. err_of (RecvMsg okStream k) \<noteq> None" ..
  have r: "makeBidiRequest_receiver ?w okStream 0 = Some [CallRecvMsg, CallRecvMsg, CallRecvMsg]"
    by (simp add: receiver_step_msg receiver_step_err ex_defs err_of_def logw_def)
  have l: "makeBidiRequest_loop ?w okStream (Some [''a'']) 0 None =
      (Return None, [CallSendMsg ''a'', CallCloseSend])"
    by (simp add: bidi_loop_send bidi_loop_close ex_defs len_def elems_def wait_def logw_def)
  from makeBidiRequest_error_iff_open_failed [of ?w exCtx "Some [''a'']"] o e r l
  show ?thesis
    by (simp add: makeBidiRequest_def len_def) (simp add: exStub_def)
qed

text \<open>
  C8, as stated: whenever the send loop finishes, the adapter waits for the receiving
  goroutine. It does not when the loop finishes on a send failure: line 442 guards the
  read from \<^verbatim>\<open>recvDone\<close> with \<^verbatim>\<open>err == nil\<close>. Here the first of two sends fails and the
  remote side never ends the stream: the adapter returns at once, while the receiving
  goroutine never reaches the end of the stream.
\<close>

theorem makeBidiRequest_send_failure_abandons_receiver:
  "makeBidiRequest (exWorker sendFailStream (exMtd True True) (exConfig False ''ab'' [])) exCtx
     (Some [''a'', ''b'']) =
     Some (Return None, [CallInvokeRpcBidiStream, GoReceiver, CallSendMsg ''a''], NotAwaited)
   \<and> makeBidiRequest_receiver (exWorker sendFailStream (exMtd True True) (exConfig False ''ab'' []))
       sendFailStream 0 = None"
proof -
  have "\<And>j. err_of (RecvMsg sendFailStream j) = None"
    by (simp add: sendFailStream_def err_of_def)
  from receiver_never [OF this] show ?thesis
  by (simp add: makeBidiRequest_def bidi_loop_send bidi_loop_err ex_defs callOptions_def len_def
      elems_def wait_def logw_def)
qed

text \<open>
  C8, amended: for a non-empty input payload list, when the stream has opened and every
  send succeeds, the adapter returns if and only if some \<^verbatim>\<open>RecvMsg\<close> of the receiving
  goroutine reports an error or the end of the stream; when it returns, it returns \<^verbatim>\<open>nil\<close>,
  its last action is the read from \<^verbatim>\<open>recvDone\<close>, and the receiving goroutine has run to
  its end.
\<close>

theorem makeBidiRequest_waits_when_sends_succeed:
  assumes "InvokeRpcBidiStream (stub w) ctx (mtd w) (callOptions w) = Inr str"
    and "0 < len input"
    and "\<forall>k<len input. SendMsg str k (elems input ! k) = None"
  shows "(makeBidiRequest w ctx input \<noteq> None \<longleftrightarrow> (\<exists>k. err_of (RecvMsg str k) \<noteq> None))
    \<and> (\<forall>r evs rc. makeBidiRequest w ctx input = Some (r, evs, rc) \<longrightarrow>
          r = Return None \<and> last evs = RecvDone
          \<and> (\<exists>revs. rc = Joined revs \<and> makeBidiRequest_receiver w str 0 = Some revs))"
proof -
  have "fst (makeBidiRequest_loop w str input 0 None) = Return None"
    using assms(3) by (intro bidi_loop_sent_all) simp_all
  note eq = makeBidiRequest_sent_all [OF assms(1,2) this]
  have "makeBidiRequest_receiver w str 0 \<noteq> None \<longleftrightarrow> (\<exists>k. err_of (RecvMsg str k) \<noteq> None)"
  proof
    assume "makeBidiRequest_receiver w str 0 \<noteq> None"
    then obtain revs where "makeBidiRequest_receiver w str 0 = Some revs" by auto
    from receiver_sees_end [OF this] show "\<exists>k. err_of (RecvMsg str k) \<noteq> None" by blast
  next
    assume "\<exists>k. err_of (RecvMsg str k) \<noteq> None"
    then obtain k where "err_of (RecvMsg str (0 + k)) \<noteq> None" by auto
    from receiver_returns [OF this, of w] show "makeBidiRequest_receiver w str 0 \<noteq> None" by auto
  qed
  with eq show ?thesis by auto
qed

theorem makeBidiRequest_waits_when_sends_succeed_witness:
  "makeBidiRequest (exWorker okStream (exMtd True True) (exConfig False ''ab'' [])) exCtx
     (Some [''a'', ''b'']) =
   Some (Return None,
         [CallInvokeRpcBidiStream, GoReceiver, CallSendMsg ''a'', CallSendMsg ''b'', CallCloseSend,
          RecvDone],
         Joined [CallRecvMsg, CallRecvMsg, CallRecvMsg])
   \<and> err_of (RecvMsg okStream 2) = Some EOF"
proof -
  let ?w = "exWorker okStream (exMtd True True) (exConfig False ''ab'' [])"
  have 1: "InvokeRpcBidiStream (stub ?w) exCtx (mtd ?w) (callOptions ?w) = Inr okStream"
    by (simp add: exWorker_def exStub_def)
  have 2: "0 < len (Some [''a'', ''b''])" by (simp add: len_def)
  have 3: "\<forall>k<len (Some [''a'', ''b'']). SendMsg okStream k (elems (Some [''a'', ''b'']) ! k) = None"
    by (simp add: okStream_def)
  have 4: "err_of (RecvMsg okStream 2) = Some EOF" by (simp add: okStream_def err_of_def)
  have r: "makeBidiRequest_receiver ?w okStream 0 = Some [CallRecvMsg, CallRecvMsg, CallRecvMsg]"
    by (simp add: receiver_step_msg receiver_step_err ex_defs err_of_def logw_def)
  have l: "makeBidiRequest_loop ?w okStream (Some [''a'', ''b'']) 0 None =
      (Return None, [CallSendMsg ''a'', CallSendMsg ''b'', CallCloseSend])"
    by (simp add: bidi_loop_send bidi_loop_close ex_defs len_def elems_def wait_def logw_def)
  from makeBidiRequest_waits_when_sends_succeed [OF 1 2 3] 4 r l show ?thesis
    by (simp add: makeBidiRequest_def 1 len_def)
qed

text \<open>
  C5. For a request sequence number \<open>n \<ge> 1\<close> (the signed value of \<open>reqNum\<close>) and a
  rotation of \<open>M \<ge> 1\<close> elements, the index computed by lines 119 and 181 is
  \<open>(n - 1) mod M\<close>: sequence numbers \<open>1..M\<close> give \<open>0..M-1\<close> and \<open>M + 1\<close> gives \<open>0\<close> again.
  \<^verbatim>\<open>makeRequest\<close> hands the element at that index of the JSON rotation to \<^verbatim>\<open>getMessages\<close>,
  and hands the element at that index of the resolved payloads to the adapter as the
  single input. (A Go slice has fewer than \<open>2^63\<close> elements.)
\<close>

theorem makeRequest_round_robin:
  assumes "1 \<le> sint reqNum"
  shows "(0 < M \<and> M < 2 ^ 63 \<longrightarrow> roundRobin reqNum M = (sint reqNum - 1) mod int M)
    \<and> (\<not> binary (config w) \<and> \<not> IsClientStreaming (mtd w) \<and> 0 < len (arrayJSONData w)
         \<and> len (arrayJSONData w) < 2 ^ 63 \<longrightarrow>
       makeRequest_inputs e w ctd reqNum =
         Return (getMessages e w ctd
                   (elems (arrayJSONData w)
                      ! nat ((sint reqNum - 1) mod int (len (arrayJSONData w))))))
    \<and> (makeRequest_inputs e w (newCallTemplateData (mtd w) (workerID w) reqNum) reqNum =
           Return (Inr inputs, w1, evs1)
         \<and> executeMetadata e (newCallTemplateData (mtd w) (workerID w) reqNum)
             (metadata (config w1)) = Inr mdMap
         \<and> 0 < len inputs \<and> len inputs < 2 ^ 63 \<longrightarrow>
       makeRequest e w reqNum =
         (case makeRequest_dispatch w1 (makeRequest_ctx w1 (makeRequest_reqMD w1 mdMap))
                 (makeRequest_reqMD w1 mdMap) inputs
                 (elems inputs ! nat ((sint reqNum - 1) mod int (len inputs))) of
            None \<Rightarrow> None
          | Some (Panic p, evs3) \<Rightarrow>
              Some (Panic p, w1,
                    (evs1 @ [CallExecuteMetadata]
                       @ logw w1 (''Making request '' @ callType w1) None) @ evs3)
          | Some (Return _, evs3) \<Rightarrow>
              Some (Return None, w1,
                    (evs1 @ [CallExecuteMetadata]
                       @ logw w1 (''Making request '' @ callType w1) None) @ evs3)))
    \<and> (\<forall>k. k < M \<and> M < 2 ^ 63 \<longrightarrow> roundRobin (word_of_nat (Suc k)) M = int k)
    \<and> (0 < M \<and> Suc M < 2 ^ 63 \<longrightarrow> roundRobin (word_of_nat (Suc M)) M = 0)"
proof (intro conjI impI allI)
  assume "0 < M \<and> M < 2 ^ 63"
  with assms show "roundRobin reqNum M = (sint reqNum - 1) mod int M"
    by (simp add: roundRobin_eq)
next
  fix k
  assume a: "k < M \<and> M < 2 ^ 63"
  then have "Suc k < 2 ^ 63" by simp
  then have s: "sint (word_of_nat (Suc k) :: int64) = int (Suc k)" by (rule sint_int64_of_nat)
  with a have "roundRobin (word_of_nat (Suc k)) M = (int (Suc k) - 1) mod int M"
    by (subst roundRobin_eq) simp_all
  with a show "roundRobin (word_of_nat (Suc k)) M = int k" by simp
next
  assume a: "0 < M \<and> Suc M < 2 ^ 63"
  then have s: "sint (word_of_nat (Suc M) :: int64) = int (Suc M)" by (intro sint_int64_of_nat) simp
  with a have "roundRobin (word_of_nat (Suc M)) M = (int (Suc M) - 1) mod int M"
    by (subst roundRobin_eq) simp_all
  then show "roundRobin (word_of_nat (Suc M)) M = 0" by simp
next
  assume a: "\<not> binary (config w) \<and> \<not> IsClientStreaming (mtd w) \<and> 0 < len (arrayJSONData w)
         \<and> len (arrayJSONData w) < 2 ^ 63"
  then have "index (elems (arrayJSONData w)) (roundRobin reqNum (len (arrayJSONData w))) =
      Return (elems (arrayJSONData w) ! nat ((sint reqNum - 1) mod int (len (arrayJSONData w))))"
    using assms by (intro index_elems_roundRobin) simp_all
  with a show "makeRequest_inputs e w ctd reqNum =
         Return (getMessages e w ctd
                   (elems (arrayJSONData w)
                      ! nat ((sint reqNum - 1) mod int (len (arrayJSONData w)))))"
    by (simp add: makeRequest_inputs_def)
next
  assume a: "makeRequest_inputs e w (newCallTemplateData (mtd w) (workerID w) reqNum) reqNum =
           Return (Inr inputs, w1, evs1)
         \<and> executeMetadata e (newCallTemplateData (mtd w) (workerID w) reqNum)
             (metadata (config w1)) = Inr mdMap
         \<and> 0 < len inputs \<and> len inputs < 2 ^ 63"
  then show "makeRequest e w reqNum =
         (case makeRequest_dispatch w1 (makeRequest_ctx w1 (makeRequest_reqMD w1 mdMap))
                 (makeRequest_reqMD w1 mdMap) inputs
                 (elems inputs ! nat ((sint reqNum - 1) mod int (len inputs))) of
            None \<Rightarrow> None
          | Some (Panic p, evs3) \<Rightarrow>
              Some (Panic p, w1,
                    (evs1 @ [CallExecuteMetadata]
                       @ logw w1 (''Making request '' @ callType w1) None) @ evs3)
          | Some (Return _, evs3) \<Rightarrow>
              Some (Return None, w1,
                    (evs1 @ [CallExecuteMetadata]
                       @ logw w1 (''Making request '' @ callType w1) None) @ evs3))"
    using assms by (intro makeRequest_dispatched) simp_all
qed

theorem makeRequest_round_robin_witness:
  "roundRobin 5 3 = 1 \<and> roundRobin 3 3 = 2 \<and> roundRobin 4 3 = 0
   \<and> makeRequest_inputs exEnv
       ((exWorker okStream (exMtd False False) (exConfig False ''abc'' []))
          \<lparr>arrayJSONData := Some [''x'', ''y'', ''z'']\<rparr>)
       (newCallTemplateData (exMtd False False) ''g0c0'' 5) 5 =
     Return (Inr (Some [''y'']),
             (exWorker okStream (exMtd False False) (exConfig False ''abc'' []))
               \<lparr>arrayJSONData := Some [''x'', ''y'', ''z'']\<rparr>,
             [CallExecuteData ''y'', CallCreatePayloadsFromJSON])
   \<and> makeRequest exEnv (exWorker okStream (exMtd False False) (exConfig False ''abc'' [])) 5 =
     Some (Return None, exWorker okStream (exMtd False False) (exConfig False ''abc'' []),
           [CallExecuteData ''abc'', CallCreatePayloadsFromJSON, CallExecuteMetadata,
            CallInvokeRpc ''b''])"
proof -
  let ?w = "exWorker okStream (exMtd False False) (exConfig False ''abc'' [])"
  let ?wr = "?w\<lparr>arrayJSONData := Some [''x'', ''y'', ''z'']\<rparr>"
  let ?ctd = "newCallTemplateData (exMtd False False) ''g0c0'' 5"
  have n: "1 \<le> sint (5 :: int64)" by simp
  have i: "makeRequest_inputs exEnv ?w (newCallTemplateData (mtd ?w) (workerID ?w) 5) 5 =
      Return (Inr (Some [''a'', ''b'', ''c'']), ?w, [CallExecuteData ''abc'', CallCreatePayloadsFromJSON])"
    by (simp add: makeRequest_inputs_def getMessages_def ex_defs len_def)
  have m: "executeMetadata exEnv (newCallTemplateData (mtd ?w) (workerID ?w) 5) (metadata (config ?w))
      = Inr []"
    by (simp add: ex_defs)
  have g: "getMessages exEnv ?wr ?ctd ''y'' =
      (Inr (Some [''y'']), ?wr, [CallExecuteData ''y'', CallCreatePayloadsFromJSON])"
    by (simp add: getMessages_def ex_defs)
  have d: "makeRequest_dispatch ?w (makeRequest_ctx ?w (makeRequest_reqMD ?w []))
      (makeRequest_reqMD ?w []) (Some [''a'', ''b'', ''c'']) ''b'' =
      Some (Return (Some (Failure ''unavailable'')), [CallInvokeRpc ''b''])"
    by (simp add: makeRequest_dispatch_def makeUnaryRequest_def ex_defs err_of_def logw_def)
  note t = makeRequest_round_robin [OF n, of 3 ?wr exEnv ?ctd]
  from t [THEN conjunct1] have 1: "roundRobin 5 3 = 1" by simp
  from t [THEN conjunct2, THEN conjunct1]
  have 2: "makeRequest_inputs exEnv ?wr ?ctd 5 = Return (getMessages exEnv ?wr ?ctd ''y'')"
    by (simp add: ex_defs len_def elems_def)
  from t [THEN conjunct2, THEN conjunct2, THEN conjunct2, THEN conjunct1, rule_format, of 2]
  have 4: "roundRobin (word_of_nat (Suc 2)) 3 = 2" by simp
  from t [THEN conjunct2, THEN conjunct2, THEN conjunct2, THEN conjunct2]
  have 5: "roundRobin (word_of_nat (Suc 3)) 3 = 0" by simp
  have "word_of_nat (Suc 2) = (3 :: int64)" "word_of_nat (Suc 3) = (4 :: int64)" by simp_all
  with 4 5 have 6: "roundRobin 3 3 = 2" "roundRobin 4 3 = 0" by simp_all
  from makeRequest_round_robin [OF n, of 3 ?w exEnv ?ctd "Some [''a'', ''b'', ''c'']" ?w
      "[CallExecuteData ''abc'', CallCreatePayloadsFromJSON]" "[]",
      THEN conjunct2, THEN conjunct2, THEN conjunct1] i m
  have 3: "makeRequest exEnv ?w 5 =
     Some (Return None, ?w,
           [CallExecuteData ''abc'', CallCreatePayloadsFromJSON, CallExecuteMetadata,
            CallInvokeRpc ''b''])"
    by (simp add: len_def elems_def d) (simp add: ex_defs logw_def)
  from 1 2 3 6 g show ?thesis by simp
qed

text \<open>
  C6, as stated: every request whose resolved payload set is empty fails with the
  no-payload error. The metadata template is expanded before the payload set is tested
  (line 129 comes before line 178), so with an empty payload set and a metadata template
  that does not expand, the request fails with the template error instead.
\<close>

theorem makeRequest_empty_payload_template_error:
  "makeRequest_inputs exEnv (exWorker okStream (exMtd False False) (exConfig False [] ''bad''))
     (newCallTemplateData (exMtd False False) ''g0c0'' 1) 1 =
     Return (Inr (Some []), exWorker okStream (exMtd False False) (exConfig False [] ''bad''),
             [CallExecuteData [], CallCreatePayloadsFromJSON])
   \<and> makeRequest exEnv (exWorker okStream (exMtd False False) (exConfig False [] ''bad'')) 1 =
     Some (Return (Some (Failure ''template'')),
           exWorker okStream (exMtd False False) (exConfig False [] ''bad''),
           [CallExecuteData [], CallCreatePayloadsFromJSON, CallExecuteMetadata])"
  by (simp add: makeRequest_def makeRequest_inputs_def getMessages_def ex_defs len_def
      newCallTemplateData_def)

text \<open>
  C6, amended: for every request whose resolved payload set is empty, \<^verbatim>\<open>makeRequest\<close>
  returns an error and calls neither the stub nor a stream: the error is the no-payload
  error when the metadata template expands, and the error of the expansion otherwise.
\<close>

theorem makeRequest_empty_payload_set:
  assumes "makeRequest_inputs e w (newCallTemplateData (mtd w) (workerID w) reqNum) reqNum =
             Return (Inr inputs, w1, evs1)"
    and "len inputs = 0"
  shows "\<exists>evs. makeRequest e w reqNum =
           Some (Return (Some (case executeMetadata e
                                      (newCallTemplateData (mtd w) (workerID w) reqNum)
                                      (metadata (config w1)) of
                                 Inl err \<Rightarrow> err
                               | Inr mdMap \<Rightarrow> Errorf ''no data provided for request'')),
                 w1, evs)
         \<and> filter is_rpc evs = []"
  using makeRequest_no_data [OF assms] makeRequest_inputs_no_rpc [OF assms(1)]
  by (auto simp: logw_def split: sum.splits)

theorem makeRequest_empty_payload_set_witness:
  "makeRequest exEnv (exWorker okStream (exMtd False False) (exConfig False [] [])) 1 =
     Some (Return (Some (Errorf ''no data provided for request'')),
           exWorker okStream (exMtd False False) (exConfig False [] []),
           [CallExecuteData [], CallCreatePayloadsFromJSON, CallExecuteMetadata])"
proof -
  let ?w = "exWorker okStream (exMtd False False) (exConfig False [] [])"
  have i: "makeRequest_inputs exEnv ?w (newCallTemplateData (mtd ?w) (workerID ?w) 1) 1 =
      Return (Inr (Some []), ?w, [CallExecuteData [], CallCreatePayloadsFromJSON])"
    by (simp add: makeRequest_inputs_def getMessages_def ex_defs len_def)
  have l: "len (Some []) = 0" by (simp add: len_def)
  have e: "makeRequest exEnv ?w 1 =
     Some (Return (Some (Errorf ''no data provided for request'')), ?w,
           [CallExecuteData [], CallCreatePayloadsFromJSON, CallExecuteMetadata])"
    by (simp add: makeRequest_def makeRequest_inputs_def getMessages_def ex_defs len_def
        newCallTemplateData_def logw_def)
  from makeRequest_empty_payload_set [OF i l] e show ?thesis by simp
qed

text \<open>
  C10. When the payload set resolves to a non-empty list and the metadata template
  expands, \<^verbatim>\<open>makeRequest\<close> returns \<^verbatim>\<open>nil\<close> whenever it returns, whatever the stub and its
  streams do and for each of the four call shapes, so that appending its result leaves
  the scheduler's accumulated error as it was; and it does return when every stream the
  stub opens ends. (Sequence numbers start at 1; a Go slice has fewer than \<open>2^63\<close>
  elements.)
\<close>

theorem makeRequest_discards_invocation_errors:
  assumes "makeRequest_inputs e w (newCallTemplateData (mtd w) (workerID w) reqNum) reqNum =
             Return (Inr inputs, w1, evs1)"
    and "0 < len inputs" and "len inputs < 2 ^ 63"
    and "executeMetadata e (newCallTemplateData (mtd w) (workerID w) reqNum)
           (metadata (config w1)) = Inr mdMap"
    and "1 \<le> sint reqNum"
  shows "(\<forall>r w' evs. makeRequest e w reqNum = Some (r, w', evs) \<longrightarrow>
            r = Return None \<and> (\<forall>acc rErr. r = Return rErr \<longrightarrow> multierr_Append acc rErr = acc))
    \<and> (streams_end (stub w) \<longrightarrow> makeRequest e w reqNum \<noteq> None)"
proof -
  note eq = makeRequest_dispatched [OF assms(1,4,2,3,5)]
  let ?d = "makeRequest_dispatch w1 (makeRequest_ctx w1 (makeRequest_reqMD w1 mdMap))
             (makeRequest_reqMD w1 mdMap) inputs
             (elems inputs ! nat ((sint reqNum - 1) mod int (len inputs)))"
  have app: "multierr_Append acc None = acc" for acc by (cases acc) simp_all
  have "r = Return None" if "makeRequest e w reqNum = Some (r, w', evs)" for r w' evs
  proof (cases ?d)
    case None
    with eq that show ?thesis by simp
  next
    case (Some res)
    from makeRequest_dispatch_Return [OF Some] obtain x evs3 where "res = (Return x, evs3)"
      by blast
    with eq Some that show ?thesis by simp
  qed
  moreover have "makeRequest e w reqNum \<noteq> None" if "streams_end (stub w)"
  proof -
    from makeRequest_inputs_stub [OF assms(1)] that have "streams_end (stub w1)" by simp
    from makeRequest_dispatch_returns [OF this] obtain res where res: "?d = Some res" by blast
    from makeRequest_dispatch_Return [OF res] obtain x evs3 where "res = (Return x, evs3)"
      by blast
    with eq res show ?thesis by simp
  qed
  ultimately show ?thesis using app by auto
qed

theorem makeRequest_discards_invocation_errors_witness:
  "InvokeRpc (exStub okStream) exCtx (exMtd False False) ''a'' [] = Inl (Failure ''unavailable'')
   \<and> makeRequest exEnv (exWorker okStream (exMtd False False) (exConfig False ''a'' [])) 1 =
     Some (Return None, exWorker okStream (exMtd False False) (exConfig False ''a'' []),
           [CallExecuteData ''a'', CallCreatePayloadsFromJSON, CallExecuteMetadata,
            CallInvokeRpc ''a''])"
proof -
  let ?w = "exWorker okStream (exMtd False False) (exConfig False ''a'' [])"
  have n: "1 \<le> sint (1 :: int64)" by simp
  have i: "makeRequest_inputs exEnv ?w (newCallTemplateData (mtd ?w) (workerID ?w) 1) 1 =
      Return (Inr (Some [''a'']), ?w, [CallExecuteData ''a'', CallCreatePayloadsFromJSON])"
    by (simp add: makeRequest_inputs_def getMessages_def ex_defs len_def)
  have l: "0 < len (Some [''a''])" "len (Some [''a'']) < 2 ^ 63" by (simp_all add: len_def)
  have m: "executeMetadata exEnv (newCallTemplateData (mtd ?w) (workerID ?w) 1) (metadata (config ?w))
      = Inr []"
    by (simp add: ex_defs)
  have "ends okStream" unfolding ends_def
    by (rule exI [of _ 2]) (simp add: okStream_def err_of_def)
  then have s: "streams_end (stub ?w)" by (simp add: streams_end_def exWorker_def exStub_def)
  have e: "makeRequest exEnv ?w 1 =
     Some (Return None, ?w,
           [CallExecuteData ''a'', CallCreatePayloadsFromJSON, CallExecuteMetadata,
            CallInvokeRpc ''a''])"
    by (simp add: makeRequest_def makeRequest_inputs_def getMessages_def ex_defs len_def
        newCallTemplateData_def roundRobin_def go_rem_def index_def elems_def logw_def
        makeRequest_dispatch_def makeUnaryRequest_def err_of_def smod_int_alt_def sgn_if)
  from makeRequest_discards_invocation_errors [OF i l m n] s e show ?thesis
    by (simp add: exStub_def)
qed


text \<open>
  C1. The claim says that on cancellation the sequential scheduler returns the errors
  accumulated so far. Here the first request fails (no payload), the cancellation signal
  is there at the second iteration, and \<^verbatim>\<open>runWorker\<close> returns \<^verbatim>\<open>nil\<close> while its accumulator
  holds the error of the request: line 68 is \<^verbatim>\<open>return nil\<close>, not \<^verbatim>\<open>return err\<close>
  (\<open>runWorker_loop_done\<close> is the general fact, for every accumulated error).
\<close>

theorem runWorker_cancelled_returns_nil:
  "runWorker exEnv (exWorker okStream (exMtd False False) (exConfig False [] []))
     (\<lambda>wid err n t. True) False (\<lambda>i. 1 \<le> i) (\<lambda>i. int i) =
   Some (Return None,
         (exWorker okStream (exMtd False False) (exConfig False [] []))\<lparr>reqCounter := 1\<rparr>,
         Some (Errorf ''no data provided for request''),
         [CallCond ''g0c0'' None 0 0,
          CallExecuteData [], CallCreatePayloadsFromJSON, CallExecuteMetadata])"
proof -
  let ?w = "exWorker okStream (exMtd False False) (exConfig False [] [])"
  have c: "reqCounter ?w = 0" and i: "workerID ?w = ''g0c0''" by (simp_all add: exWorker_def)
  have m: "makeRequest exEnv (?w\<lparr>reqCounter := reqCounter ?w + 1\<rparr>) (reqCounter ?w + 1) =
      Some (Return (Some (Errorf ''no data provided for request'')), ?w\<lparr>reqCounter := 1\<rparr>,
            [CallExecuteData [], CallCreatePayloadsFromJSON, CallExecuteMetadata])"
    unfolding c using exWorker_no_data [of 1] by simp
  have "runWorker exEnv ?w (\<lambda>wid err n t. True) False (\<lambda>i. 1 \<le> i) (\<lambda>i. int i) =
      runWorker_loop exEnv (\<lambda>wid err n t. True) False (\<lambda>i. 1 \<le> i) (\<lambda>i. int i)
        (?w\<lparr>reqCounter := 1\<rparr>) (Some (Errorf ''no data provided for request'')) None 1 1
        [CallCond ''g0c0'' None 0 0,
         CallExecuteData [], CallCreatePayloadsFromJSON, CallExecuteMetadata]"
    unfolding runWorker_def
    by (subst runWorker_loop_request [OF _ _ m]) (simp_all add: i)
  also have "\<dots> = Some (Return None, ?w\<lparr>reqCounter := 1\<rparr>,
         Some (Errorf ''no data provided for request''),
         [CallCond ''g0c0'' None 0 0,
          CallExecuteData [], CallCreatePayloadsFromJSON, CallExecuteMetadata])"
    by (simp add: runWorker_loop_done)
  finally show ?thesis .
qed

text \<open>
  C2. The claim says that after the first request the condition is evaluated with the
  error of the most recent request. Here the condition continues only while it is given
  no error, and the scheduler stops on a negative decision. Both requests fail, and yet
  the condition is called with \<^verbatim>\<open>nil\<close> both times and the second request is issued: the
  \<^verbatim>\<open>rErr\<close> assigned in line 74 is a new variable of the inner block, not the one that
  line 70 reads.
\<close>

theorem runWorker_condition_never_sees_error:
  "runWorker exEnv (exWorker okStream (exMtd False False) (exConfig False [] []))
     (\<lambda>wid err n t. err = None) True (\<lambda>i. 2 \<le> i) (\<lambda>i. int i) =
   Some (Return None,
         (exWorker okStream (exMtd False False) (exConfig False [] []))\<lparr>reqCounter := 2\<rparr>,
         Some (MultiError [Errorf ''no data provided for request'',
                           Errorf ''no data provided for request'']),
         [CallCond ''g0c0'' None 0 0,
          CallExecuteData [], CallCreatePayloadsFromJSON, CallExecuteMetadata,
          CallCond ''g0c0'' None 1 1,
          CallExecuteData [], CallCreatePayloadsFromJSON, CallExecuteMetadata])"
proof -
  let ?w = "exWorker okStream (exMtd False False) (exConfig False [] [])"
  let ?E = "Errorf ''no data provided for request''"
  let ?req = "[CallExecuteData [], CallCreatePayloadsFromJSON, CallExecuteMetadata]"
  let ?loop = "runWorker_loop exEnv (\<lambda>wid err n t. err = None) True (\<lambda>i. 2 \<le> i) (\<lambda>i. int i)"
  have c: "reqCounter ?w = 0" and i: "workerID ?w = ''g0c0''" by (simp_all add: exWorker_def)
  have m1: "makeRequest exEnv (?w\<lparr>reqCounter := reqCounter ?w + 1\<rparr>) (reqCounter ?w + 1) =
      Some (Return (Some ?E), ?w\<lparr>reqCounter := 1\<rparr>, ?req)"
    unfolding c using exWorker_no_data [of 1] by simp
  have m2: "makeRequest exEnv (?w\<lparr>reqCounter := 1\<rparr>\<lparr>reqCounter := reqCounter (?w\<lparr>reqCounter := 1\<rparr>) + 1\<rparr>)
        (reqCounter (?w\<lparr>reqCounter := 1\<rparr>) + 1) =
      Some (Return (Some ?E), ?w\<lparr>reqCounter := 2\<rparr>, ?req)"
    using exWorker_no_data [of 2] by simp
  have "runWorker exEnv ?w (\<lambda>wid err n t. err = None) True (\<lambda>i. 2 \<le> i) (\<lambda>i. int i) =
      ?loop (?w\<lparr>reqCounter := 1\<rparr>) (Some ?E) None 1 1 (CallCond ''g0c0'' None 0 0 # ?req)"
    unfolding runWorker_def
    by (subst runWorker_loop_request [OF _ _ m1]) (simp_all add: i)
  also have "\<dots> = ?loop (?w\<lparr>reqCounter := 2\<rparr>) (Some (MultiError [?E, ?E])) None 2 2
      (CallCond ''g0c0'' None 0 0 # ?req @ CallCond ''g0c0'' None 1 1 # ?req)"
    by (subst runWorker_loop_request [OF _ _ m2]) (simp_all add: i numeral_2_eq_2)
  also have "\<dots> = Some (Return None, ?w\<lparr>reqCounter := 2\<rparr>, Some (MultiError [?E, ?E]),
      CallCond ''g0c0'' None 0 0 # ?req @ CallCond ''g0c0'' None 1 1 # ?req)"
    by (simp add: runWorker_loop_done)
  finally show ?thesis by simp
qed


end
